theory Spec2Isabelle
  imports Main
begin

section \<open>The DSN lexer of include/dsnlexer.h\<close>

text \<open>
  The header declares class \<open>DSNLEXER\<close> and defines inline its line pulling
  (\<open>readLine\<close>), the string terminator test, the configuration setters and the
  accessors. The bodies of \<open>NextTok\<close>, \<open>readLineOrCmt\<close>, \<open>findToken\<close>,
  \<open>PushReader\<close>, \<open>PopReader\<close> and of the constructors, and the class
  \<open>LINE_READER\<close> of richio.h, are not part of the header; they are modelled from the
  design document and marked as such.
\<close>

subsection \<open>Token kinds and keywords\<close>

text \<open>\<open>enum DSN_SYNTAX_T\<close>. The lexer stores token kinds in plain \<open>int\<close>s.\<close>

abbreviation DSN_NONE :: int where "DSN_NONE \<equiv> - 11"
abbreviation DSN_COMMENT :: int where "DSN_COMMENT \<equiv> - 10"
abbreviation DSN_STRING_QUOTE :: int where "DSN_STRING_QUOTE \<equiv> - 9"
abbreviation DSN_QUOTE_DEF :: int where "DSN_QUOTE_DEF \<equiv> - 8"
abbreviation DSN_DASH :: int where "DSN_DASH \<equiv> - 7"
abbreviation DSN_SYMBOL :: int where "DSN_SYMBOL \<equiv> - 6"
abbreviation DSN_NUMBER :: int where "DSN_NUMBER \<equiv> - 5"
abbreviation DSN_RIGHT :: int where "DSN_RIGHT \<equiv> - 4"
abbreviation DSN_LEFT :: int where "DSN_LEFT \<equiv> - 3"
abbreviation DSN_STRING :: int where "DSN_STRING \<equiv> - 2"
abbreviation DSN_EOF :: int where "DSN_EOF \<equiv> - 1"

text \<open>\<open>struct KEYWORD\<close>: a keyword string and its integer token.\<close>

record KEYWORD =
  name :: string
  token :: int

subsection \<open>The line reader\<close>

datatype error = IOError | NoReader

datatype line_event = Line string | ReadFailure

text \<open>
  Modelled from the spec: class \<open>LINE_READER\<close> (richio.h) is not in the header. The
  design document gives its interface: \<open>read_line\<close> hands out one line of text and its
  length, length zero signals the end of the source, an empty line is a line of length
  one, the read may fail; \<open>line_number\<close> and \<open>source_name\<close> report the position.
  The model keeps the lines still to be delivered (without their terminator; a read that
  will fail is \<open>ReadFailure\<close>), the line buffer, the number of lines delivered and the
  source name.
\<close>

record LINE_READER =
  pending :: "line_event list"
  line :: string
  lineNum :: nat
  source :: string

abbreviation newline :: char where "newline \<equiv> CHR 0x0A"

definition ReadLine :: "LINE_READER \<Rightarrow> error + (nat \<times> LINE_READER)" where
  "ReadLine r =
     (case pending r of
        [] \<Rightarrow> Inr (0, r\<lparr>line := []\<rparr>)
      | ReadFailure # _ \<Rightarrow> Inl IOError
      | Line l # ls \<Rightarrow>
          Inr (Suc (length l),
               r\<lparr>pending := ls, line := l @ [newline], lineNum := Suc (lineNum r)\<rparr>))"

text \<open>An in-memory source (the clipboard constructor's reader) over the given lines.\<close>

definition memory_reader :: "string list \<Rightarrow> LINE_READER" where
  "memory_reader ls = \<lparr>pending = map Line ls, line = [], lineNum = 0, source = ''clipboard''\<rparr>"

subsection \<open>The lexer state\<close>

text \<open>
  The data members of \<open>DSNLEXER\<close>. \<open>next\<close> and \<open>limit\<close> point into the line
  buffer of the active reader: they are offsets from its first character, so that
  \<open>start()\<close> is offset 0. \<open>readerStack\<close> lists the readers, the active one first; the
  member \<open>reader\<close> (a non-owning pointer to the active reader) is the head of that
  list. \<open>keywords\<close> (here \<open>keywords'\<close>) is the table of \<open>keywordCount\<close> entries.
  Line lengths are far below the range of \<open>int\<close> and \<open>unsigned\<close>, which are not
  bounded here.
\<close>

record DSNLEXER =
  next' :: nat
  limit :: nat
  readerStack :: "LINE_READER list"
  stringDelimiter :: int
  space_in_quoted_tokens :: bool
  commentsAreTokens :: bool
  prevTok :: int
  curOffset :: int
  curTok :: int
  curText :: string
  lowercase :: string
  keywords' :: "KEYWORD list"

definition reader :: "DSNLEXER \<Rightarrow> LINE_READER option" where
  "reader lx = (case readerStack lx of [] \<Rightarrow> None | r # _ \<Rightarrow> Some r)"

text \<open>The line buffer of the active reader, \<open>(char*) (*reader)\<close> as a string.\<close>

definition curLine :: "DSNLEXER \<Rightarrow> string" where
  "curLine lx = (case readerStack lx of [] \<Rightarrow> [] | r # _ \<Rightarrow> line r)"

definition start :: "DSNLEXER \<Rightarrow> nat" where
  "start lx = 0"

text \<open>
  \<open>readLine\<close>: \<open>len = reader->ReadLine(); next = start(); limit = next + len; return len\<close>.
  A failing reader throws \<open>IOError\<close> through it. With no reader on the stack there is
  nothing \<open>reader\<close> could point to.
\<close>

definition readLine :: "DSNLEXER \<Rightarrow> error + (int \<times> DSNLEXER)" where
  "readLine lx =
     (case readerStack lx of
        [] \<Rightarrow> Inl NoReader
      | r # rs \<Rightarrow>
          (case ReadLine r of
             Inl e \<Rightarrow> Inl e
           | Inr (len, r') \<Rightarrow>
               (let lx1 = lx\<lparr>readerStack := r' # rs\<rparr>;
                    lx2 = lx1\<lparr>next' := start lx1\<rparr>;
                    lx3 = lx2\<lparr>limit := next' lx2 + len\<rparr>
                in Inr (int len, lx3))))"

text \<open>
  A \<open>char\<close> compared with an \<open>int\<close> is promoted first; \<open>char\<close> is signed on the
  compilers KiCad is built with, so the bytes from 128 on are negative.
\<close>

definition char_to_int :: "char \<Rightarrow> int" where
  "char_to_int c = (let n = of_char c in if n < 128 then n else n - 256)"

definition isStringTerminator :: "DSNLEXER \<Rightarrow> char \<Rightarrow> bool" where
  "isStringTerminator lx cc =
     (if \<not> space_in_quoted_tokens lx \<and> cc = CHR '' '' then True
      else if char_to_int cc = stringDelimiter lx then True
      else False)"

definition CurTok :: "DSNLEXER \<Rightarrow> int" where
  "CurTok lx = curTok lx"

definition PrevTok :: "DSNLEXER \<Rightarrow> int" where
  "PrevTok lx = prevTok lx"

definition SetStringDelimiter :: "DSNLEXER \<Rightarrow> int \<Rightarrow> int \<times> DSNLEXER" where
  "SetStringDelimiter lx aStringDelimiter =
     (let old = stringDelimiter lx in (old, lx\<lparr>stringDelimiter := aStringDelimiter\<rparr>))"

definition SetSpaceInQuotedTokens :: "DSNLEXER \<Rightarrow> bool \<Rightarrow> bool \<times> DSNLEXER" where
  "SetSpaceInQuotedTokens lx val =
     (let old = space_in_quoted_tokens lx in (old, lx\<lparr>space_in_quoted_tokens := val\<rparr>))"

definition SetCommentsAreTokens :: "DSNLEXER \<Rightarrow> bool \<Rightarrow> bool \<times> DSNLEXER" where
  "SetCommentsAreTokens lx val =
     (let old = commentsAreTokens lx in (old, lx\<lparr>commentsAreTokens := val\<rparr>))"

definition CurText :: "DSNLEXER \<Rightarrow> string" where
  "CurText lx = curText lx"

definition CurLineNumber :: "DSNLEXER \<Rightarrow> int option" where
  "CurLineNumber lx = map_option (\<lambda>r. int (lineNum r)) (reader lx)"

definition CurSource :: "DSNLEXER \<Rightarrow> string option" where
  "CurSource lx = map_option source (reader lx)"


subsection \<open>Character classes\<close>

text \<open>
  Modelled from the spec: the character tests of the tokenizer are not in the header.
  Blank (separator) characters are space, tab, line feed and carriage return. The design
  document does not name the comment marker; its end-to-end scenario
  \<open>(pad ; comment\<close> fixes the semicolon. A symbol is a run of characters that are
  neither blank nor a bracket nor the string delimiter.
\<close>

definition isSpace :: "char \<Rightarrow> bool" where
  "isSpace cc = (cc = CHR '' '' \<or> cc = CHR 0x09 \<or> cc = newline \<or> cc = CHR 0x0D)"

definition isDigit :: "char \<Rightarrow> bool" where
  "isDigit cc = (cc \<in> set ''0123456789'')"

definition isCommentStart :: "char \<Rightarrow> bool" where
  "isCommentStart cc = (cc = CHR '';'')"

definition isSymbolChar :: "DSNLEXER \<Rightarrow> char \<Rightarrow> bool" where
  "isSymbolChar lx cc =
     (\<not> isSpace cc \<and> cc \<noteq> CHR ''('' \<and> cc \<noteq> CHR '')'' \<and> char_to_int cc \<noteq> stringDelimiter lx)"

text \<open>
  Modelled from the spec: a character can start a numeric literal if it is a digit, or
  \<open>-\<close>, \<open>+\<close> or \<open>.\<close> immediately followed by a digit (\<open>canStartNumber\<close>). A run
  is a syntactically complete numeric literal (\<open>isNumericLiteral\<close>) when it consists
  of an optional sign, digits with at most one \<open>.\<close> among them (at least one digit),
  and an optional exponent: the marker \<open>e\<close> or \<open>E\<close>, an optional sign and digits.
  The two are separate tests: \<open>+.5\<close> and \<open>-.5\<close> are complete literals that cannot
  start a number.
\<close>

definition startsWithDigit :: "string \<Rightarrow> bool" where
  "startsWithDigit s = (case s of [] \<Rightarrow> False | c # _ \<Rightarrow> isDigit c)"

definition canStartNumber :: "string \<Rightarrow> bool" where
  "canStartNumber s =
     (case s of
        [] \<Rightarrow> False
      | c # cs \<Rightarrow>
          isDigit c \<or> ((c = CHR ''-'' \<or> c = CHR ''+'' \<or> c = CHR ''.'') \<and> startsWithDigit cs))"

definition stripSign :: "string \<Rightarrow> string" where
  "stripSign s =
     (case s of [] \<Rightarrow> [] | c # cs \<Rightarrow> if c = CHR ''+'' \<or> c = CHR ''-'' then cs else s)"

definition isExponentPart :: "string \<Rightarrow> bool" where
  "isExponentPart s =
     (case s of
        [] \<Rightarrow> True
      | c # cs \<Rightarrow>
          (c = CHR ''e'' \<or> c = CHR ''E'') \<and> stripSign cs \<noteq> [] \<and> list_all isDigit (stripSign cs))"

definition isNumericLiteral :: "string \<Rightarrow> bool" where
  "isNumericLiteral s =
     (let m = stripSign s; ip = takeWhile isDigit m
      in case dropWhile isDigit m of
           [] \<Rightarrow> ip \<noteq> []
         | c # cs \<Rightarrow>
             if c = CHR ''.''
             then (ip \<noteq> [] \<or> takeWhile isDigit cs \<noteq> []) \<and> isExponentPart (dropWhile isDigit cs)
             else ip \<noteq> [] \<and> isExponentPart (c # cs))"

subsection \<open>Pulling lines and producing tokens\<close>

definition isCommentLine :: "string \<Rightarrow> bool" where
  "isCommentLine l = (case dropWhile isSpace l of [] \<Rightarrow> False | c # _ \<Rightarrow> isCommentStart c)"

text \<open>
  Modelled from the spec: the body of \<open>readLineOrCmt\<close> is not in the header, which
  documents its result: a positive line length (1 for an empty line), zero at the end of
  the source, \<open>DSN_COMMENT\<close> if the line is a comment, that is, if its first non-blank
  character is the comment marker.
\<close>

definition readLineOrCmt :: "DSNLEXER \<Rightarrow> error + (int \<times> DSNLEXER)" where
  "readLineOrCmt lx =
     (case readLine lx of
        Inl e \<Rightarrow> Inl e
      | Inr (len, lx1) \<Rightarrow>
          if len = 0 then Inr (0, lx1)
          else if isCommentLine (curLine lx1) then Inr (DSN_COMMENT, lx1)
          else Inr (len, lx1))"

text \<open>
  What a call of \<open>NextTok\<close> comes to: a token kind with the lexer that holds the token,
  an error thrown by the reader with the lexer as it was then, or a lexer still pulling
  lines when the passes allowed were used up.
\<close>

datatype outcome = Tok int DSNLEXER | Thrown error DSNLEXER | Pulling DSNLEXER

definition final :: "outcome \<Rightarrow> DSNLEXER" where
  "final out = (case out of Tok _ lx \<Rightarrow> lx | Thrown _ lx \<Rightarrow> lx | Pulling lx \<Rightarrow> lx)"

text \<open>The kind and the text of the token a call returned, if it returned one.\<close>

definition token_of :: "outcome \<Rightarrow> (int \<times> string) option" where
  "token_of out = (case out of Tok t lx \<Rightarrow> Some (t, curText lx) | _ \<Rightarrow> None)"

text \<open>The characters between the cursor and the line limit.\<close>

definition window :: "DSNLEXER \<Rightarrow> string" where
  "window lx = drop (next' lx) (take (limit lx) (curLine lx))"

text \<open>
  Modelled from the spec: step 4 of \<open>next_token\<close>. The token's kind and text become
  current, the kind that was current becomes the previous one, the offset of the token's
  first character is recorded and the cursor moves behind the token.
\<close>

definition leave :: "DSNLEXER \<Rightarrow> int \<Rightarrow> string \<Rightarrow> nat \<Rightarrow> nat \<Rightarrow> outcome" where
  "leave lx tok text cur head =
     Tok tok (lx\<lparr>prevTok := curTok lx, curTok := tok, curText := text,
                 curOffset := int cur, next' := head\<rparr>)"

text \<open>
  Modelled from the spec: the body of \<open>NextTok\<close> is not in the header. One pass of
  the state machine of the design document either ends the call or starts the next pass
  on a new state:
  \<^enum> with the cursor at or past the limit a line is pulled. At the end of the active
    source the token is \<open>DSN_EOF\<close>. The design document names the case with no lower
    reader; every call produces a token or a read failure, and the header has
    \<open>NextTok\<close> return \<open>DSN_EOF\<close> when reaching the end of file, so the end of a
    source above a lower reader is \<open>DSN_EOF\<close> as well, and no reader is popped.
    Otherwise cursor and limit are those of the new line and the machine continues. A
    comment line, which \<open>readLineOrCmt\<close> reports, is the token \<open>DSN_COMMENT\<close> if
    comments are tokens (the header: comments are returned as single line strings with
    a terminating newline) and is passed over otherwise;
  \<^enum> blanks are skipped; a line with nothing left makes the machine pull the next one;
  \<^enum> the first non-blank character decides: brackets, the string delimiter (the text
    runs to the next string terminator or to the limit), the comment marker (the rest of
    the line, or nothing and the next line), a dash not followed by a digit, a run that
    can start a number (a number if complete, else a symbol), any other run (a symbol).
\<close>

datatype progress = Done outcome | Again DSNLEXER

definition iteration :: "DSNLEXER \<Rightarrow> progress" where
  "iteration lx =
     (if limit lx \<le> next' lx then
        (case readLineOrCmt lx of
           Inl e \<Rightarrow> Done (Thrown e lx)
         | Inr (len, lx1) \<Rightarrow>
             if len = 0 then Done (leave lx1 DSN_EOF (curText lx1) (start lx1) (next' lx1))
             else if len = DSN_COMMENT then
               (if commentsAreTokens lx1
                then Done (leave lx1 DSN_COMMENT (curLine lx1) (start lx1) (limit lx1))
                else Again (lx1\<lparr>next' := limit lx1\<rparr>))
             else Again lx1)
      else
        (let cur = next' lx + length (takeWhile isSpace (window lx))
         in case dropWhile isSpace (window lx) of
              [] \<Rightarrow> Again (lx\<lparr>next' := limit lx\<rparr>)
            | c # cs \<Rightarrow>
                if c = CHR ''('' then Done (leave lx DSN_LEFT [c] cur (cur + 1))
                else if c = CHR '')'' then Done (leave lx DSN_RIGHT [c] cur (cur + 1))
                else if char_to_int c = stringDelimiter lx then
                  (let body = takeWhile (\<lambda>x. \<not> isStringTerminator lx x) cs;
                       head = cur + 1 + length body
                   in Done (leave lx DSN_STRING body cur
                              (if length body < length cs then head + 1 else head)))
                else if isCommentStart c then
                  (if commentsAreTokens lx
                   then Done (leave lx DSN_COMMENT (c # cs) cur (limit lx))
                   else Again (lx\<lparr>next' := limit lx\<rparr>))
                else if c = CHR ''-'' \<and> \<not> startsWithDigit cs
                then Done (leave lx DSN_DASH [c] cur (cur + 1))
                else if canStartNumber (c # cs) then
                  (let run = c # takeWhile (isSymbolChar lx) cs
                   in Done (leave lx (if isNumericLiteral run then DSN_NUMBER else DSN_SYMBOL) run cur
                              (cur + length run)))
                else
                  (let run = c # takeWhile (isSymbolChar lx) cs
                   in Done (leave lx DSN_SYMBOL run cur (cur + length run)))))"

text \<open>
  \<open>NextTok\<close> runs the passes until one ends the call. The first argument bounds
  their number: a call that has not ended after that many passes is \<open>Pulling\<close>. Two
  passes for every line the active reader has left and two more always end the call.
\<close>

fun NextTok :: "nat \<Rightarrow> DSNLEXER \<Rightarrow> outcome" where
  "NextTok 0 lx = Pulling lx"
| "NextTok (Suc n) lx =
     (case iteration lx of Done out \<Rightarrow> out | Again lx1 \<Rightarrow> NextTok n lx1)"

subsection \<open>Keyword lookup\<close>

text \<open>
  Modelled from the spec: the body of \<open>findToken\<close> is not in the header. The text is
  compared with the name of every entry, letters \<open>A\<close> to \<open>Z\<close> counting as their lower
  case; the token of the first entry that matches is the result, \<open>-1\<close> if none does.
\<close>

definition toLower :: "char \<Rightarrow> char" where
  "toLower c =
     (let n = of_char c :: nat in if 65 \<le> n \<and> n \<le> 90 then char_of (n + 32) else c)"

definition sameNoCase :: "string \<Rightarrow> string \<Rightarrow> bool" where
  "sameNoCase a b = (map toLower a = map toLower b)"

fun findToken_in :: "KEYWORD list \<Rightarrow> string \<Rightarrow> int" where
  "findToken_in [] tok = - 1"
| "findToken_in (k # ks) tok = (if sameNoCase (name k) tok then token k else findToken_in ks tok)"

definition findToken :: "DSNLEXER \<Rightarrow> string \<Rightarrow> int" where
  "findToken lx tok = findToken_in (keywords' lx) tok"

subsection \<open>The reader stack\<close>

text \<open>
  Modelled from the spec: the constructors and \<open>init\<close> are not in the header. A new
  lexer owns one reader, its original source, has read nothing yet, and delimits strings
  with the double quote; both switches start off.
\<close>

definition DSNLEXER_new :: "LINE_READER \<Rightarrow> KEYWORD list \<Rightarrow> DSNLEXER" where
  "DSNLEXER_new r kws =
     \<lparr>next' = 0, limit = 0, readerStack = [r], stringDelimiter = 34,
      space_in_quoted_tokens = False, commentsAreTokens = False,
      prevTok = DSN_NONE, curOffset = 0, curTok = DSN_NONE, curText = [], lowercase = [],
      keywords' = kws\<rparr>"

text \<open>
  Modelled from the spec: the bodies of \<open>PushReader\<close> and \<open>PopReader\<close> are not in the
  header. The pushed reader becomes the active one, with its own line text. A pop needs
  two readers: it releases the active one, the one below becomes active and the next
  token is read from a fresh line of it; with fewer readers nothing changes and the
  result is false.
\<close>

definition PushReader :: "DSNLEXER \<Rightarrow> LINE_READER \<Rightarrow> DSNLEXER" where
  "PushReader lx aLineReader =
     (let lx1 = lx\<lparr>readerStack := aLineReader # readerStack lx\<rparr>
      in lx1\<lparr>next' := start lx1, limit := start lx1\<rparr>)"

definition PopReader :: "DSNLEXER \<Rightarrow> bool \<times> DSNLEXER" where
  "PopReader lx =
     (if 2 \<le> length (readerStack lx) then
        (let lx1 = lx\<lparr>readerStack := tl (readerStack lx)\<rparr>
         in (True, lx1\<lparr>next' := start lx1, limit := start lx1\<rparr>))
      else (False, lx))"

text \<open>
  The calls a grammar makes on a lexer, and a sequence of them run in order. A call of
  \<open>NextTok\<close> that is cut before it ends, ends the sequence; after a thrown error the
  lexer can still be used.
\<close>

datatype lexer_call = CallPushReader LINE_READER | CallPopReader | CallNextTok nat

fun call :: "DSNLEXER \<Rightarrow> lexer_call \<Rightarrow> DSNLEXER option" where
  "call lx (CallPushReader r) = Some (PushReader lx r)"
| "call lx CallPopReader = Some (snd (PopReader lx))"
| "call lx (CallNextTok n) =
     (case NextTok n lx of Tok _ lx' \<Rightarrow> Some lx' | Thrown _ lx' \<Rightarrow> Some lx' | Pulling _ \<Rightarrow> None)"

fun calls :: "DSNLEXER \<Rightarrow> lexer_call list \<Rightarrow> DSNLEXER option" where
  "calls lx [] = Some lx"
| "calls lx (c # cs) = (case call lx c of None \<Rightarrow> None | Some lx' \<Rightarrow> calls lx' cs)"

subsection \<open>Notions used in the properties\<close>

text \<open>
  The lexer \<open>lx\<close>, whose stack is \<open>r # rs\<close>, after \<open>readLine\<close> when the active
  reader \<open>r\<close> delivers the line \<open>l\<close> and keeps \<open>ls\<close>.
\<close>

definition delivered ::
  "DSNLEXER \<Rightarrow> LINE_READER \<Rightarrow> LINE_READER list \<Rightarrow> string \<Rightarrow> line_event list \<Rightarrow> DSNLEXER" where
  "delivered lx r rs l ls =
     lx\<lparr>readerStack :=
          r\<lparr>pending := ls, line := l @ [newline], lineNum := Suc (lineNum r)\<rparr> # rs,
        next' := 0, limit := Suc (length l)\<rparr>"


text \<open>
  A bound on the passes a call still needs: two for every line the active reader has
  left, and one to leave the line the cursor is in.
\<close>

definition passes_left :: "DSNLEXER \<Rightarrow> nat" where
  "passes_left lx =
     2 * (case readerStack lx of [] \<Rightarrow> 0 | r # _ \<Rightarrow> length (pending r)) +
     (if limit lx \<le> next' lx then 0 else 1)"

text \<open>
  The kinds and texts of the tokens that repeated calls return, at most \<open>k\<close> of them, up
  to the end of file or to a call that returns none.
\<close>

fun tokens :: "nat \<Rightarrow> DSNLEXER \<Rightarrow> (int \<times> string) list" where
  "tokens 0 lx = []"
| "tokens (Suc k) lx =
     (case NextTok (Suc (passes_left lx)) lx of
        Tok t lx' \<Rightarrow> if t = DSN_EOF then [(t, [])] else (t, curText lx') # tokens k lx'
      | _ \<Rightarrow> [])"

subsection \<open>Sample inputs\<close>

text \<open>A small keyword table.\<close>

definition sample_keywords :: "KEYWORD list" where
  "sample_keywords = [\<lparr>name = ''pad'', token = 0\<rparr>, \<lparr>name = ''via'', token = 1\<rparr>]"





text \<open>
  Lexers on a quoted string, closed and left open, and one that delimits strings with
  the space.
\<close>

definition quoted_lexer :: DSNLEXER where
  "quoted_lexer = DSNLEXER_new (memory_reader [CHR 0x22 # ''abc'' @ [CHR 0x22]]) []"

definition open_quote_lexer :: DSNLEXER where
  "open_quote_lexer = DSNLEXER_new (memory_reader [CHR 0x22 # ''abc'']) []"

definition blank_delimiter_lexer :: DSNLEXER where
  "blank_delimiter_lexer =
     snd (SetStringDelimiter
            (DSNLEXER_new (memory_reader [CHR '' '' # ''ab'' @ [CHR '' '']]) [])
            (char_to_int (CHR '' '')))"

section \<open>Properties\<close>

subsection \<open>Auxiliary facts\<close>

lemma char_to_int_inj: "char_to_int a = char_to_int b \<Longrightarrow> a = b"
proof -
  assume h: "char_to_int a = char_to_int b"
  have ra: "(of_char a :: int) < 256" "0 \<le> (of_char a :: int)"
    by (metis of_char_mod_256 pos_mod_bound zero_less_numeral,
        metis of_char_mod_256 pos_mod_sign zero_less_numeral)
  have rb: "(of_char b :: int) < 256" "0 \<le> (of_char b :: int)"
    by (metis of_char_mod_256 pos_mod_bound zero_less_numeral,
        metis of_char_mod_256 pos_mod_sign zero_less_numeral)
  from h ra rb have "(of_char a :: int) = of_char b"
    by (auto simp: char_to_int_def Let_def split: if_splits)
  then show "a = b" by simp
qed

subsection \<open>Configuration\<close>

text \<open>
  C7. Each of the three setters \<open>SetStringDelimiter\<close>, \<open>SetSpaceInQuotedTokens\<close> and
  \<open>SetCommentsAreTokens\<close> returns the value that was configured before the call and
  stores the new one, in every lexer state and for every argument; nothing else in the
  lexer changes.
\<close>

theorem setters_return_previous_value:
  "fst (SetStringDelimiter lx d) = stringDelimiter lx \<and>
   snd (SetStringDelimiter lx d) = lx\<lparr>stringDelimiter := d\<rparr> \<and>
   fst (SetSpaceInQuotedTokens lx v) = space_in_quoted_tokens lx \<and>
   snd (SetSpaceInQuotedTokens lx v) = lx\<lparr>space_in_quoted_tokens := v\<rparr> \<and>
   fst (SetCommentsAreTokens lx w) = commentsAreTokens lx \<and>
   snd (SetCommentsAreTokens lx w) = lx\<lparr>commentsAreTokens := w\<rparr>"
  by (simp add: SetStringDelimiter_def SetSpaceInQuotedTokens_def SetCommentsAreTokens_def)

subsection \<open>String terminators\<close>

text \<open>
  C9, as stated, says that a tab never terminates a quoted string in any configuration.
  With the tab configured as the string delimiter it does.
\<close>

theorem tab_delimiter_terminates:
  "isStringTerminator (snd (SetStringDelimiter (DSNLEXER_new (memory_reader []) []) 9)) (CHR 0x09)"
  by (simp add: isStringTerminator_def SetStringDelimiter_def DSNLEXER_new_def char_to_int_def)

text \<open>
  C9, amended. \<open>isStringTerminator cc\<close> is true if and only if \<open>cc\<close> equals the
  configured string delimiter, or \<open>space_in_quoted_tokens\<close> is false and \<open>cc\<close> is the
  space character. Hence a tab or any blank other than the space terminates a quoted
  string exactly when it is the configured delimiter, and with the delimiter set to the
  space a space terminates whatever \<open>space_in_quoted_tokens\<close> is.
\<close>

theorem isStringTerminator_iff:
  "(isStringTerminator lx cc \<longleftrightarrow>
      char_to_int cc = stringDelimiter lx \<or> (\<not> space_in_quoted_tokens lx \<and> cc = CHR '' '')) \<and>
   (isSpace cc \<and> cc \<noteq> CHR '' '' \<longrightarrow>
      (isStringTerminator lx cc \<longleftrightarrow> char_to_int cc = stringDelimiter lx)) \<and>
   (stringDelimiter lx = char_to_int (CHR '' '') \<longrightarrow> isStringTerminator lx (CHR '' ''))"
  by (auto simp: isStringTerminator_def)

theorem isStringTerminator_iff_witness:
  "isSpace (CHR 0x09) \<and> CHR 0x09 \<noteq> CHR '' '' \<and>
   \<not> isStringTerminator (DSNLEXER_new (memory_reader []) []) (CHR 0x09) \<and>
   isStringTerminator
     (snd (SetSpaceInQuotedTokens
             (snd (SetStringDelimiter (DSNLEXER_new (memory_reader []) []) 32)) True))
     (CHR '' '')"
  using isStringTerminator_iff [of "DSNLEXER_new (memory_reader []) []" "CHR 0x09"]
    isStringTerminator_iff
      [of "snd (SetSpaceInQuotedTokens
                  (snd (SetStringDelimiter (DSNLEXER_new (memory_reader []) []) 32)) True)"
          "CHR '' ''"]
  by (simp add: isSpace_def DSNLEXER_new_def char_to_int_def SetStringDelimiter_def
        SetSpaceInQuotedTokens_def)

subsection \<open>Pulling a line\<close>

text \<open>
  C10. After every call of \<open>readLine\<close> that returns a length \<open>len\<close>, the cursor is at
  the first character of the line buffer of the active reader, the limit is the cursor
  plus \<open>len\<close>, so that limit minus cursor is \<open>len\<close>; \<open>len\<close> is the length of the line
  just read by the active reader, whichever reader of the stack that is, and the
  characters between cursor and limit are that line.
\<close>

theorem readLine_cursor_and_limit:
  assumes "readLine lx = Inr (len, lx')"
  shows "next' lx' = start lx' \<and> int (limit lx') = int (next' lx') + len \<and>
         int (limit lx') - int (next' lx') = len \<and>
         len = int (length (curLine lx')) \<and> window lx' = curLine lx' \<and>
         (\<exists>r rs r'. readerStack lx = r # rs \<and> ReadLine r = Inr (nat len, r') \<and>
                     readerStack lx' = r' # rs)"
  using assms
  by (auto simp: readLine_def ReadLine_def start_def curLine_def window_def Let_def
           split: list.splits sum.splits line_event.splits)

theorem readLine_cursor_and_limit_witness:
  "readLine (DSNLEXER_new (memory_reader [''ab'']) []) =
     Inr (3, (DSNLEXER_new (memory_reader [''ab'']) [])
               \<lparr>readerStack :=
                  [\<lparr>pending = [], line = ''ab'' @ [newline], lineNum = 1,
                    source = ''clipboard''\<rparr>],
                next' := 0, limit := 3\<rparr>) \<and>
   limit ((DSNLEXER_new (memory_reader [''ab'']) [])
               \<lparr>readerStack :=
                  [\<lparr>pending = [], line = ''ab'' @ [newline], lineNum = 1,
                    source = ''clipboard''\<rparr>],
                next' := 0, limit := 3\<rparr>) = 3"
proof -
  have r: "readLine (DSNLEXER_new (memory_reader [''ab'']) []) =
     Inr (3, (DSNLEXER_new (memory_reader [''ab'']) [])
               \<lparr>readerStack :=
                  [\<lparr>pending = [], line = ''ab'' @ [newline], lineNum = 1,
                    source = ''clipboard''\<rparr>],
                next' := 0, limit := 3\<rparr>)"
    by (simp add: readLine_def ReadLine_def DSNLEXER_new_def memory_reader_def start_def)
  from readLine_cursor_and_limit [OF r] r show ?thesis by simp
qed

subsection \<open>Keyword lookup\<close>

lemma findToken_in_none:
  "(\<forall>k\<in>set kws. \<not> sameNoCase (name k) s) \<Longrightarrow> findToken_in kws s = - 1"
  by (induction kws) auto

lemma findToken_in_found:
  "distinct (map (\<lambda>k. map toLower (name k)) kws) \<Longrightarrow> k \<in> set kws \<Longrightarrow>
   sameNoCase (name k) s \<Longrightarrow> findToken_in kws s = token k"
proof (induction kws)
  case Nil
  then show ?case by simp
next
  case (Cons a kws)
  show ?case
  proof (cases "sameNoCase (name a) s")
    case True
    have "k = a"
    proof (rule ccontr)
      assume "k \<noteq> a"
      with Cons.prems have "k \<in> set kws" by simp
      moreover from True Cons.prems have "map toLower (name a) = map toLower (name k)"
        by (simp add: sameNoCase_def)
      ultimately show False using Cons.prems(1) by force
    qed
    with True show ?thesis by simp
  next
    case False
    with Cons show ?thesis by auto
  qed
qed

text \<open>
  C6. \<open>findToken\<close> depends on the keyword table and the text only and returns a plain
  number, so it changes neither the table nor the lexer. In a table whose names are
  keys up to case (no two entries with the same name up to case), for every entry and
  every text equal to the entry's name up to case it returns that entry's token; for a
  text that matches no entry up to case it returns \<open>-1\<close>.
\<close>

theorem findToken_case_insensitive:
  "(distinct (map (\<lambda>k. map toLower (name k)) (keywords' lx)) \<longrightarrow>
      (\<forall>k \<in> set (keywords' lx). \<forall>s. sameNoCase (name k) s \<longrightarrow> findToken lx s = token k)) \<and>
   ((\<forall>k \<in> set (keywords' lx). \<not> sameNoCase (name k) s) \<longrightarrow> findToken lx s = - 1) \<and>
   findToken lx s = findToken_in (keywords' lx) s"
  by (auto simp: findToken_def findToken_in_none findToken_in_found)

theorem findToken_case_insensitive_witness:
  "findToken (DSNLEXER_new (memory_reader []) sample_keywords) ''Via'' = 1 \<and>
   findToken (DSNLEXER_new (memory_reader []) sample_keywords) ''VIA'' = 1 \<and>
   findToken (DSNLEXER_new (memory_reader []) sample_keywords) ''via'' = 1 \<and>
   findToken (DSNLEXER_new (memory_reader []) sample_keywords) ''VIAS'' = - 1"
proof -
  let ?L = "DSNLEXER_new (memory_reader []) sample_keywords"
  have kw: "keywords' ?L = sample_keywords"
    by (simp add: DSNLEXER_new_def)
  have d: "distinct (map (\<lambda>k. map toLower (name k)) sample_keywords)"
    by code_simp
  have m: "sample_keywords ! 1 \<in> set sample_keywords"
    by (simp add: sample_keywords_def)
  have t: "token (sample_keywords ! 1) = 1"
    by (simp add: sample_keywords_def)
  note T = findToken_case_insensitive [of ?L "''VIAS''", unfolded kw]
  from T d
  have A: "\<forall>k \<in> set sample_keywords. \<forall>s. sameNoCase (name k) s \<longrightarrow> findToken ?L s = token k"
    by blast
  have s: "sameNoCase (name (sample_keywords ! 1)) ''Via''"
    "sameNoCase (name (sample_keywords ! 1)) ''VIA''"
    "sameNoCase (name (sample_keywords ! 1)) ''via''"
    by code_simp+
  have n: "\<forall>k \<in> set sample_keywords. \<not> sameNoCase (name k) ''VIAS''"
    by code_simp
  from A m s t
  have "findToken ?L ''Via'' = 1" "findToken ?L ''VIA'' = 1" "findToken ?L ''via'' = 1"
    by fastforce+
  moreover from T n have "findToken ?L ''VIAS'' = - 1" by blast
  ultimately show ?thesis by simp
qed

subsection \<open>The reader stack\<close>

lemma readLine_frame:
  "readLine lx = Inr (len, lx1) \<Longrightarrow>
     length (readerStack lx1) = length (readerStack lx) \<and>
     tl (readerStack lx1) = tl (readerStack lx)"
  by (auto simp: readLine_def Let_def split: list.splits sum.splits)

lemma readLineOrCmt_frame:
  "readLineOrCmt lx = Inr (len, lx1) \<Longrightarrow>
     length (readerStack lx1) = length (readerStack lx) \<and>
     tl (readerStack lx1) = tl (readerStack lx)"
  by (auto simp: readLineOrCmt_def split: sum.splits if_splits dest: readLine_frame)

text \<open>
  However a call of \<open>NextTok\<close> ends, and at whatever pass it is cut, the stack has
  the readers below the active one unchanged and as many readers as before.
\<close>

lemma NextTok_stack:
  "length (readerStack (final (NextTok n lx))) = length (readerStack lx) \<and>
   tl (readerStack (final (NextTok n lx))) = tl (readerStack lx)"
proof (induction n arbitrary: lx)
  case 0
  show ?case by (simp add: final_def)
next
  case (Suc n)
  show ?case
    using Suc.IH
    by (auto simp: iteration_def Let_def leave_def final_def split: sum.splits list.splits
             dest!: readLineOrCmt_frame)
qed

lemma call_keeps_reader:
  assumes "readerStack lx \<noteq> []" and "call lx c = Some lx'"
  shows "readerStack lx' \<noteq> []"
proof (cases c)
  case (CallPushReader r)
  with assms show ?thesis by (auto simp: PushReader_def Let_def)
next
  case CallPopReader
  with assms show ?thesis
    by (cases "readerStack lx"; cases "tl (readerStack lx)")
       (auto simp: PopReader_def Let_def split: if_splits)
next
  case (CallNextTok n)
  with assms(2) have "lx' = final (NextTok n lx)"
    by (auto simp: final_def split: outcome.splits)
  with NextTok_stack [of n lx] assms(1) show ?thesis
    by (metis length_0_conv)
qed

lemma calls_keep_reader:
  "readerStack lx \<noteq> [] \<Longrightarrow> calls lx cs = Some lx' \<Longrightarrow> readerStack lx' \<noteq> []"
proof (induction cs arbitrary: lx)
  case Nil
  then show ?case by simp
next
  case (Cons c cs)
  then show ?case
    by (auto split: option.splits dest: call_keeps_reader)
qed

text \<open>
  C1. With fewer than two readers on the stack \<open>PopReader\<close> returns false and the
  lexer is unchanged as a whole (no reader released; stack, cursor, limit and the active
  reader with its source and line number as before). With two or more it returns true,
  the active reader is removed and the one below is the active reader. From a new lexer,
  after every sequence of \<open>PushReader\<close>, \<open>PopReader\<close> and \<open>NextTok\<close> calls, the
  stack holds at least one reader.
\<close>

theorem PopReader_keeps_bottom_reader:
  "(length (readerStack lx) < 2 \<longrightarrow> PopReader lx = (False, lx)) \<and>
   (\<forall>top prev rest. readerStack lx = top # prev # rest \<longrightarrow>
      fst (PopReader lx) \<and> readerStack (snd (PopReader lx)) = prev # rest \<and>
      reader (snd (PopReader lx)) = Some prev) \<and>
   (\<forall>cs lx'. calls (DSNLEXER_new r kws) cs = Some lx' \<longrightarrow> 1 \<le> length (readerStack lx'))"
proof (intro conjI allI impI)
  fix cs lx'
  assume "calls (DSNLEXER_new r kws) cs = Some lx'"
  moreover have "readerStack (DSNLEXER_new r kws) \<noteq> []"
    by (simp add: DSNLEXER_new_def)
  ultimately have "readerStack lx' \<noteq> []"
    by (rule calls_keep_reader [rotated])
  then show "1 \<le> length (readerStack lx')"
    by (cases "readerStack lx'") simp_all
qed (auto simp: PopReader_def Let_def reader_def)

theorem PopReader_keeps_bottom_reader_witness:
  "PopReader (DSNLEXER_new (memory_reader [''a'']) []) =
     (False, DSNLEXER_new (memory_reader [''a'']) []) \<and>
   fst (PopReader (PushReader (DSNLEXER_new (memory_reader [''a'']) []) (memory_reader [''b'']))) \<and>
   readerStack
     (snd (PopReader (PushReader (DSNLEXER_new (memory_reader [''a'']) []) (memory_reader [''b''])))) =
     [memory_reader [''a'']] \<and>
   (\<exists>lx'. calls (DSNLEXER_new (memory_reader [''a'']) [])
             [CallPopReader, CallPushReader (memory_reader [''b'']), CallNextTok 3,
              CallPopReader, CallPopReader, CallNextTok 3] = Some lx' \<and>
          1 \<le> length (readerStack lx'))"
proof -
  let ?L = "DSNLEXER_new (memory_reader [''a'']) []"
  let ?M = "PushReader ?L (memory_reader [''b''])"
  let ?cs = "[CallPopReader, CallPushReader (memory_reader [''b'']), CallNextTok 3,
              CallPopReader, CallPopReader, CallNextTok 3]"
  have one: "length (readerStack ?L) < 2"
    by (simp add: DSNLEXER_new_def)
  have two: "readerStack ?M = [memory_reader [''b''], memory_reader [''a'']]"
    by (simp add: PushReader_def DSNLEXER_new_def Let_def)
  have run: "calls ?L ?cs \<noteq> None"
    by code_simp
  then obtain lx' where r: "calls ?L ?cs = Some lx'"
    by blast
  note T = PopReader_keeps_bottom_reader [of ?L "memory_reader [''a'']" "[]"]
  note U = PopReader_keeps_bottom_reader [of ?M "memory_reader [''a'']" "[]"]
  from T one have "PopReader ?L = (False, ?L)" by blast
  moreover from U two
  have "fst (PopReader ?M) \<and> readerStack (snd (PopReader ?M)) = [memory_reader [''a'']]"
    by blast
  moreover from T r have "1 \<le> length (readerStack lx')" by blast
  ultimately show ?thesis using r by blast
qed

subsection \<open>One pass of the tokenizer\<close>

lemma isCommentLine_newline: "isCommentLine (l @ [newline]) = isCommentLine l"
proof (cases "\<forall>x\<in>set l. isSpace x")
  case True
  then have "dropWhile isSpace (l @ [newline]) = []" "dropWhile isSpace l = []"
    by (simp_all add: isSpace_def)
  then show ?thesis by (simp only: isCommentLine_def)
next
  case False
  then obtain x where "x \<in> set l" "\<not> isSpace x" by blast
  then have "dropWhile isSpace (l @ [newline]) = dropWhile isSpace l @ [newline]"
    by (rule dropWhile_append1)
  moreover from False have "dropWhile isSpace l \<noteq> []" by simp
  ultimately show ?thesis
    by (cases "dropWhile isSpace l") (simp_all add: isCommentLine_def)
qed

lemma readLine_Line:
  "readerStack lx = r # rs \<Longrightarrow> pending r = Line l # ls \<Longrightarrow>
   readLine lx = Inr (int (Suc (length l)), delivered lx r rs l ls)"
  by (simp add: readLine_def ReadLine_def Let_def start_def delivered_def)

lemma delivered_simps:
  "curLine (delivered lx r rs l ls) = l @ [newline]"
  "window (delivered lx r rs l ls) = l @ [newline]"
  "next' (delivered lx r rs l ls) = 0"
  "limit (delivered lx r rs l ls) = Suc (length l)"
  "readerStack (delivered lx r rs l ls) = r\<lparr>pending := ls, line := l @ [newline], lineNum := Suc (lineNum r)\<rparr> # rs"
  "stringDelimiter (delivered lx r rs l ls) = stringDelimiter lx"
  "space_in_quoted_tokens (delivered lx r rs l ls) = space_in_quoted_tokens lx"
  "commentsAreTokens (delivered lx r rs l ls) = commentsAreTokens lx"
  "curTok (delivered lx r rs l ls) = curTok lx"
  "curText (delivered lx r rs l ls) = curText lx"
  by (simp_all add: delivered_def curLine_def window_def)

lemma readLineOrCmt_Line:
  assumes "readerStack lx = r # rs" "pending r = Line l # ls"
  shows "readLineOrCmt lx =
     Inr (if isCommentLine l then DSN_COMMENT else int (Suc (length l)), delivered lx r rs l ls)"
  using readLine_Line [OF assms]
  by (simp add: readLineOrCmt_def delivered_simps isCommentLine_newline)

lemma NextTok_pull_line:
  assumes "limit lx \<le> next' lx" "readerStack lx = r # rs" "pending r = Line l # ls"
    "\<not> isCommentLine l"
  shows "NextTok (Suc n) lx = NextTok n (delivered lx r rs l ls)"
  using readLineOrCmt_Line [OF assms(2,3)] assms(1,4)
  by (simp add: iteration_def)


lemma NextTok_pull_end:
  assumes "limit lx \<le> next' lx" "readerStack lx = r # rs" "pending r = []"
  shows "NextTok (Suc n) lx =
     leave (lx\<lparr>readerStack := r\<lparr>line := []\<rparr> # rs, next' := 0, limit := 0\<rparr>)
       DSN_EOF (curText lx) 0 0"
  using assms
  by (simp add: iteration_def readLineOrCmt_def readLine_def ReadLine_def Let_def start_def)

lemma window_split:
  assumes "window lx = pre @ c # cs" "\<forall>x\<in>set pre. isSpace x" "\<not> isSpace c"
  shows "\<not> limit lx \<le> next' lx" "takeWhile isSpace (window lx) = pre"
    "dropWhile isSpace (window lx) = c # cs"
proof -
  from assms(1) have "window lx \<noteq> []" by simp
  then show "\<not> limit lx \<le> next' lx"
    by (auto simp: window_def)
  from assms show "takeWhile isSpace (window lx) = pre"
    by (simp add: takeWhile_append2)
  from assms show "dropWhile isSpace (window lx) = c # cs"
    by (simp add: dropWhile_append2)
qed

lemma NextTok_classify:
  assumes "window lx = pre @ c # cs" "\<forall>x\<in>set pre. isSpace x" "\<not> isSpace c"
  shows "NextTok (Suc n) lx =
    (let cur = next' lx + length pre in
                if c = CHR ''('' then leave lx DSN_LEFT [c] cur (cur + 1)
                else if c = CHR '')'' then leave lx DSN_RIGHT [c] cur (cur + 1)
                else if char_to_int c = stringDelimiter lx then
                  (let body = takeWhile (\<lambda>x. \<not> isStringTerminator lx x) cs;
                       head = cur + 1 + length body
                   in leave lx DSN_STRING body cur
                        (if length body < length cs then head + 1 else head))
                else if isCommentStart c then
                  (if commentsAreTokens lx then leave lx DSN_COMMENT (c # cs) cur (limit lx)
                   else NextTok n (lx\<lparr>next' := limit lx\<rparr>))
                else if c = CHR ''-'' \<and> \<not> startsWithDigit cs
                then leave lx DSN_DASH [c] cur (cur + 1)
                else if canStartNumber (c # cs) then
                  (let run = c # takeWhile (isSymbolChar lx) cs
                   in leave lx (if isNumericLiteral run then DSN_NUMBER else DSN_SYMBOL) run cur
                        (cur + length run))
                else
                  (let run = c # takeWhile (isSymbolChar lx) cs
                   in leave lx DSN_SYMBOL run cur (cur + length run)))"
  using window_split [OF assms]
  by (simp add: iteration_def Let_def)

lemma NextTok_blank_rest:
  assumes "\<not> limit lx \<le> next' lx" "\<forall>x\<in>set (window lx). isSpace x"
  shows "NextTok (Suc n) lx = NextTok n (lx\<lparr>next' := limit lx\<rparr>)"
proof -
  from assms(2) have "dropWhile isSpace (window lx) = []" by simp
  with assms(1) show ?thesis by (simp add: iteration_def Let_def del: dropWhile_eq_Nil_conv)
qed

subsection \<open>The scenarios of the design document\<close>

text \<open>
  The model yields the token sequences the design document lists for its two end-to-end
  scenarios, and a push followed by a pop gives back the reader, source and line number
  that were active before.
\<close>

lemma scenario_via:
  "tokens 10 (DSNLEXER_new (memory_reader [''(via 10 20)'']) []) =
     [(DSN_LEFT, ''(''), (DSN_SYMBOL, ''via''), (DSN_NUMBER, ''10''), (DSN_NUMBER, ''20''),
      (DSN_RIGHT, '')''), (DSN_EOF, [])]"
  by code_simp

lemma scenario_pad:
  "tokens 10 (DSNLEXER_new (memory_reader [''(pad ; comment'', '' 5)'']) []) =
     [(DSN_LEFT, ''(''), (DSN_SYMBOL, ''pad''), (DSN_NUMBER, ''5''), (DSN_RIGHT, '')''),
      (DSN_EOF, [])]"
  by code_simp

lemma push_then_pop:
  assumes "readerStack lx \<noteq> []"
  shows "fst (PopReader (PushReader lx r))"
    and "readerStack (snd (PopReader (PushReader lx r))) = readerStack lx"
    and "CurSource (snd (PopReader (PushReader lx r))) = CurSource lx"
    and "CurLineNumber (snd (PopReader (PushReader lx r))) = CurLineNumber lx"
  using assms
  by (cases "readerStack lx";
      simp add: PopReader_def PushReader_def Let_def CurSource_def CurLineNumber_def reader_def)+

subsection \<open>Comment lines\<close>



subsection \<open>End of file\<close>

declare NextTok.simps [simp del]

text \<open>A call that has ended is the same call with more passes allowed.\<close>

lemma NextTok_more_passes:
  "NextTok n lx = out \<Longrightarrow> (\<forall>lx'. out \<noteq> Pulling lx') \<Longrightarrow> NextTok (n + k) lx = out"
proof (induction n arbitrary: lx)
  case 0
  then show ?case by (auto simp: NextTok.simps)
next
  case (Suc n)
  then show ?case
    by (cases "iteration lx") (auto simp: NextTok.simps(2))
qed






lemma NextTok_EOF_at_end:
  assumes "readerStack lx = r # rs" "pending r = []" "\<forall>c\<in>set (window lx). isSpace c"
  shows "\<exists>lx'. NextTok (Suc (Suc n)) lx = Tok DSN_EOF lx'"
proof (cases "limit lx \<le> next' lx")
  case True
  from NextTok_pull_end [OF True assms(1,2), of "Suc n"] show ?thesis
    by (simp add: leave_def)
next
  case False
  let ?lx = "lx\<lparr>next' := limit lx\<rparr>"
  have "limit ?lx \<le> next' ?lx" "readerStack ?lx = r # rs" using assms(1) by simp_all
  from NextTok_pull_end [OF this assms(2), of n] NextTok_blank_rest [OF False assms(3), of "Suc n"]
  show ?thesis
    by (simp add: leave_def)
qed




subsection \<open>Column offsets\<close>









lemma isCommentLine_first:
  "\<not> isSpace c \<Longrightarrow> isCommentLine (c # cs) = isCommentStart c"
  by (simp add: isCommentLine_def)




subsection \<open>Quoted strings\<close>

lemma not_terminator:
  assumes "stringDelimiter lx = char_to_int d" "x \<noteq> d" "space_in_quoted_tokens lx \<or> x \<noteq> CHR '' ''"
  shows "\<not> isStringTerminator lx x"
  using assms by (auto simp: isStringTerminator_def dest: char_to_int_inj)

lemma no_terminator_in:
  assumes "stringDelimiter lx = char_to_int d" "d \<notin> set s"
    "space_in_quoted_tokens lx \<or> CHR '' '' \<notin> set s"
  shows "\<forall>x\<in>set s. \<not> isStringTerminator lx x"
proof
  fix x
  assume "x \<in> set s"
  with assms(2,3) have "x \<noteq> d" "space_in_quoted_tokens lx \<or> x \<noteq> CHR '' ''"
    by auto
  with assms(1) show "\<not> isStringTerminator lx x"
    by (rule not_terminator)
qed

lemma quoted_string_closed:
  assumes d: "\<not> isSpace d" "d \<noteq> CHR ''(''" "d \<noteq> CHR '')''" "\<not> isCommentStart d"
      "stringDelimiter lx = char_to_int d"
    and s: "d \<notin> set s" "space_in_quoted_tokens lx \<or> CHR '' '' \<notin> set s"
    and st: "limit lx \<le> next' lx" "readerStack lx = r # rs"
      "pending r = Line (d # s @ [d]) # ls"
  shows "NextTok (Suc (Suc n)) lx =
           leave (delivered lx r rs (d # s @ [d]) ls) DSN_STRING s 0 (length s + 2)"
proof -
  let ?l = "d # s @ [d]"
  let ?d = "delivered lx r rs ?l ls"
  from d(1,4) have "\<not> isCommentLine ?l" by (simp add: isCommentLine_first)
  from NextTok_pull_line [OF st this, of "Suc n"]
  have p: "NextTok (Suc (Suc n)) lx = NextTok (Suc n) ?d" .
  have w: "window ?d = [] @ d # (s @ [d, newline])"
    by (simp add: delivered_simps)
  have nt: "\<forall>x\<in>set s. \<not> isStringTerminator ?d x"
    using s d(5) by (intro no_terminator_in [where d = d]) (simp_all add: delivered_simps)
  have t: "isStringTerminator ?d d"
    using d(5) by (simp add: isStringTerminator_def delivered_simps)
  have body: "takeWhile (\<lambda>x. \<not> isStringTerminator ?d x) (s @ [d, newline]) = s"
    using nt t by (simp add: takeWhile_append2)
  from NextTok_classify [OF w _ d(1), of n] d(2,3,5) body
  have "NextTok (Suc n) ?d = leave ?d DSN_STRING s 0 (length s + 2)"
    by (simp add: Let_def delivered_simps)
  with p show ?thesis by simp
qed

lemma quoted_string_open:
  assumes d: "\<not> isSpace d" "d \<noteq> CHR ''(''" "d \<noteq> CHR '')''" "\<not> isCommentStart d"
      "stringDelimiter lx = char_to_int d"
    and s: "d \<notin> set s" "space_in_quoted_tokens lx \<or> CHR '' '' \<notin> set s"
    and st: "limit lx \<le> next' lx" "readerStack lx = r # rs"
      "pending r = Line (d # s) # ls"
  shows "NextTok (Suc (Suc n)) lx =
           leave (delivered lx r rs (d # s) ls) DSN_STRING (s @ [newline]) 0 (length s + 2)"
proof -
  let ?l = "d # s"
  let ?d = "delivered lx r rs ?l ls"
  from d(1,4) have "\<not> isCommentLine ?l" by (simp add: isCommentLine_first)
  from NextTok_pull_line [OF st this, of "Suc n"]
  have p: "NextTok (Suc (Suc n)) lx = NextTok (Suc n) ?d" .
  have w: "window ?d = [] @ d # (s @ [newline])"
    by (simp add: delivered_simps)
  from d(1) have "newline \<noteq> d" by (auto simp: isSpace_def)
  then have "\<not> isStringTerminator ?d newline"
    using d(5) by (intro not_terminator [where d = d]) (simp_all add: delivered_simps)
  moreover have "\<forall>x\<in>set s. \<not> isStringTerminator ?d x"
    using s d(5) by (intro no_terminator_in [where d = d]) (simp_all add: delivered_simps)
  ultimately have body: "takeWhile (\<lambda>x. \<not> isStringTerminator ?d x) (s @ [newline]) = s @ [newline]"
    by simp
  from NextTok_classify [OF w _ d(1), of n] d(2,3,5) body
  have "NextTok (Suc n) ?d = leave ?d DSN_STRING (s @ [newline]) 0 (length s + 2)"
    by (simp add: Let_def delivered_simps)
  with p show ?thesis by simp
qed

lemma EOF_after_closed_string:
  assumes "NextTok k lx = leave (delivered lx r [] (d # s @ [d]) []) DSN_STRING s 0 (length s + 2)"
    "NextTok k lx = Tok t lx'"
  shows "\<exists>lx''. NextTok (Suc (Suc m)) lx' = Tok DSN_EOF lx''"
proof -
  let ?r = "r\<lparr>pending := [], line := (d # s @ [d]) @ [newline], lineNum := Suc (lineNum r)\<rparr>"
  from assms have lx': "lx' = (delivered lx r [] (d # s @ [d]) [])
      \<lparr>prevTok := curTok lx, curTok := DSN_STRING, curText := s, curOffset := 0,
        next' := length s + 2\<rparr>"
    by (simp add: leave_def delivered_simps)
  have "readerStack lx' = [?r]" "pending ?r = []"
    by (simp_all add: lx' delivered_simps)
  moreover have "window lx' = [newline]"
    by (simp add: lx' window_def curLine_def delivered_def)
  then have "\<forall>c\<in>set (window lx'). isSpace c"
    by (simp add: isSpace_def)
  ultimately show ?thesis by (rule NextTok_EOF_at_end)
qed

text \<open>
  C2, as stated, is about every configured string delimiter. With the space configured
  as the delimiter, the line made of a space, \<open>ab\<close> and a space gives the symbol
  \<open>ab\<close>, not a quoted string: blanks are skipped before the first character is
  looked at.
\<close>

theorem blank_delimiter_gives_symbol:
  "stringDelimiter blank_delimiter_lexer = char_to_int (CHR '' '') \<and>
   token_of (NextTok 2 blank_delimiter_lexer) = Some (DSN_SYMBOL, ''ab'')"
  by code_simp

text \<open>
  C2, amended. Let the configured string delimiter \<open>d\<close> be neither a blank nor a
  bracket nor the comment marker, and let \<open>s\<close> contain no \<open>d\<close> and, when
  \<open>space_in_quoted_tokens\<close> is off, no space. On the line \<open>d s d\<close> \<open>NextTok\<close>
  returns a \<open>DSN_STRING\<close> token whose text is exactly \<open>s\<close>, and if nothing follows
  the line the next token is \<open>DSN_EOF\<close>, so the line gives exactly one token. On the
  line \<open>d s\<close>, with no terminator before the end of the line, \<open>NextTok\<close> returns a
  \<open>DSN_STRING\<close> token all the same, closed at the end of the line, and no error.
\<close>

theorem quoted_string_token:
  assumes "\<not> isSpace d" "d \<noteq> CHR ''(''" "d \<noteq> CHR '')''" "\<not> isCommentStart d"
      "stringDelimiter lx = char_to_int d"
    and "d \<notin> set s" "space_in_quoted_tokens lx \<or> CHR '' '' \<notin> set s"
    and "limit lx \<le> next' lx" "readerStack lx = r # rs"
  shows "(pending r = Line (d # s @ [d]) # ls \<longrightarrow>
            (\<exists>lx'. NextTok (Suc (Suc n)) lx = Tok DSN_STRING lx' \<and> curText lx' = s \<and>
               (ls = [] \<and> rs = [] \<longrightarrow> (\<exists>lx''. NextTok (Suc (Suc m)) lx' = Tok DSN_EOF lx'')))) \<and>
         (pending r = Line (d # s) # ls \<longrightarrow>
            (\<exists>lx'. NextTok (Suc (Suc n)) lx = Tok DSN_STRING lx' \<and> curText lx' = s @ [newline]))"
proof (intro conjI impI)
  assume p: "pending r = Line (d # s @ [d]) # ls"
  note c = quoted_string_closed [OF assms p, of n]
  obtain lx' where l: "NextTok (Suc (Suc n)) lx = Tok DSN_STRING lx'" "curText lx' = s"
    using c by (simp add: leave_def)
  have "ls = [] \<and> rs = [] \<longrightarrow> (\<exists>lx''. NextTok (Suc (Suc m)) lx' = Tok DSN_EOF lx'')"
  proof
    assume "ls = [] \<and> rs = []"
    with c have "NextTok (Suc (Suc n)) lx =
        leave (delivered lx r [] (d # s @ [d]) []) DSN_STRING s 0 (length s + 2)"
      by simp
    then show "\<exists>lx''. NextTok (Suc (Suc m)) lx' = Tok DSN_EOF lx''"
      using l(1) by (rule EOF_after_closed_string)
  qed
  with l show "\<exists>lx'. NextTok (Suc (Suc n)) lx = Tok DSN_STRING lx' \<and> curText lx' = s \<and>
               (ls = [] \<and> rs = [] \<longrightarrow> (\<exists>lx''. NextTok (Suc (Suc m)) lx' = Tok DSN_EOF lx''))"
    by blast
next
  assume p: "pending r = Line (d # s) # ls"
  from quoted_string_open [OF assms p, of n]
  show "\<exists>lx'. NextTok (Suc (Suc n)) lx = Tok DSN_STRING lx' \<and> curText lx' = s @ [newline]"
    by (simp add: leave_def)
qed


theorem quoted_string_token_witness:
  "(\<exists>lx'. NextTok (Suc (Suc 0)) quoted_lexer = Tok DSN_STRING lx' \<and> curText lx' = ''abc'' \<and>
      (\<exists>lx''. NextTok (Suc (Suc 0)) lx' = Tok DSN_EOF lx'')) \<and>
   (\<exists>lx'. NextTok (Suc (Suc 0)) open_quote_lexer = Tok DSN_STRING lx' \<and>
      curText lx' = ''abc'' @ [newline])"
proof -
  let ?q = "CHR 0x22"
  have d: "\<not> isSpace ?q" "?q \<noteq> CHR ''(''" "?q \<noteq> CHR '')''" "\<not> isCommentStart ?q"
    "?q \<notin> set ''abc''" "CHR '' '' \<notin> set ''abc''"
    by (simp_all add: isSpace_def isCommentStart_def)
  have c: "stringDelimiter quoted_lexer = char_to_int ?q" "limit quoted_lexer \<le> next' quoted_lexer"
    "readerStack quoted_lexer = memory_reader [?q # ''abc'' @ [?q]] # []"
    "pending (memory_reader [?q # ''abc'' @ [?q]]) = Line (?q # ''abc'' @ [?q]) # []"
    by (simp_all add: quoted_lexer_def DSNLEXER_new_def memory_reader_def char_to_int_def)
  have u: "stringDelimiter open_quote_lexer = char_to_int ?q"
    "limit open_quote_lexer \<le> next' open_quote_lexer"
    "readerStack open_quote_lexer = memory_reader [?q # ''abc''] # []"
    "pending (memory_reader [?q # ''abc'']) = Line (?q # ''abc'') # []"
    by (simp_all add: open_quote_lexer_def DSNLEXER_new_def memory_reader_def char_to_int_def)
  from quoted_string_token [OF d(1-4) c(1) d(5) disjI2 [OF d(6)] c(2,3), of "[]" 0 0] c(4)
  have "\<exists>lx'. NextTok (Suc (Suc 0)) quoted_lexer = Tok DSN_STRING lx' \<and> curText lx' = ''abc'' \<and>
      (\<exists>lx''. NextTok (Suc (Suc 0)) lx' = Tok DSN_EOF lx'')"
    by blast
  moreover
  from quoted_string_token [OF d(1-4) u(1) d(5) disjI2 [OF d(6)] u(2,3), of "[]" 0 0] u(4)
  have "\<exists>lx'. NextTok (Suc (Suc 0)) open_quote_lexer = Tok DSN_STRING lx' \<and>
      curText lx' = ''abc'' @ [newline]"
    by blast
  ultimately show ?thesis by blast
qed

subsection \<open>Numbers, dashes and symbols\<close>











end
